theory Spec2Isabelle
  imports Complex_Main "HOL-Library.Word" "HOL-Library.AList"
begin

section \<open>The foreign runtime: values, tables and the operand stack\<close>

text \<open>
  \<open>LuaBasic.h\<close> marshals host values onto the operand stack of the embedded Lua
  runtime. The runtime itself is not part of the header; its primitives are modelled
  below from section 6 of the specification (and the Lua 5.1 API they name).

  A \<open>lua_Number\<close> is a double. It is carried by the number it denotes, with the three
  special values of the format kept apart; \<open>int\<close>, \<open>unsigned int\<close> and \<open>float\<close>
  convert to it without loss.
\<close>

datatype lua_Number = Finite real | PosInf | NegInf | NaN

type_synonym pointer = nat
  \<comment> \<open>an object address; \<open>0\<close> is \<open>nullptr\<close>\<close>

datatype lua_value =
    LNil
  | LBoolean bool
  | LNumber lua_Number
  | LString string
  | LUserdata pointer
  | LVector "lua_Number list"
  | LMatrix "lua_Number list"
  | LTable "(lua_value \<times> lua_value) list"

type_synonym lua_table = "(lua_value \<times> lua_value) list"

text \<open>
  The part of \<open>lua_State\<close> the pushers touch is its stack, written top first: index
  \<open>-1\<close> is the head of the list, \<open>-2\<close> the slot below it.
\<close>

type_synonym lua_State = "lua_value list"

text \<open>
  A \<open>void\<close> function of the header either returns or leaves by an exception. The
  stack keeps whatever was pushed before the \<open>throw\<close>: nothing unwinds it.
\<close>

datatype exception = std_logic_error string | std_bad_variant_access | lua_error string

datatype outcome =
    is_Returned: Returned lua_State
  | Thrown exception lua_State

fun final_stack :: "outcome \<Rightarrow> lua_State" where
  "final_stack (Returned L) = L"
| "final_stack (Thrown e L) = L"

subsection \<open>Tables\<close>

text \<open>
  Modelled from the spec: the runtime's table, absent from the sources: "the runtime's
  aggregate value", "indexed (1-based sequential keys) or associative (arbitrary
  key/value pairs)". A table maps keys to values; a key that is absent reads as nil, and
  storing nil removes the key. The association list keeps the keys in the order of their
  first store.
\<close>

definition luaH_get :: "lua_table \<Rightarrow> lua_value \<Rightarrow> lua_value" where
  "luaH_get t k = (case map_of t k of None \<Rightarrow> LNil | Some v \<Rightarrow> v)"

definition luaH_set :: "lua_table \<Rightarrow> lua_value \<Rightarrow> lua_value \<Rightarrow> lua_table" where
  "luaH_set t k v = (if v = LNil then AList.delete k t else AList.update k v t)"

definition index_key :: "int \<Rightarrow> lua_value" where
  "index_key n = LNumber (Finite (of_int n))"

text \<open>
  An indexed container of length \<open>n\<close> is a table whose keys are exactly the numbers
  \<open>1..n\<close>: \<open>n\<close> is then the only border of the table, the value of Lua's length
  operator.
\<close>

definition table_keys :: "lua_table \<Rightarrow> lua_value list" where
  "table_keys t = filter (\<lambda>k. luaH_get t k \<noteq> LNil) (map fst t)"

definition indexed_length :: "lua_table \<Rightarrow> nat \<Rightarrow> bool" where
  "indexed_length t n = (set (table_keys t) = set (map (\<lambda>i. index_key (int i)) [1..<Suc n]))"

subsection \<open>Stack primitives\<close>

text \<open>
  Modelled from the spec: the runtime's leaf pushes (\<open>lua_pushnumber\<close>,
  \<open>lua_pushboolean\<close>, \<open>lua_pushnil\<close>, \<open>lua_pushlstring\<close>), absent from the sources:
  "leaf primitive pushes, one foreign-runtime slot each".
\<close>

definition lua_pushnumber :: "lua_Number \<Rightarrow> lua_State \<Rightarrow> lua_State" where
  "lua_pushnumber n L = LNumber n # L"

definition lua_pushboolean :: "bool \<Rightarrow> lua_State \<Rightarrow> lua_State" where
  "lua_pushboolean b L = LBoolean b # L"

definition lua_pushnil :: "lua_State \<Rightarrow> lua_State" where
  "lua_pushnil L = LNil # L"

definition lua_pushlstring :: "string \<Rightarrow> nat \<Rightarrow> lua_State \<Rightarrow> lua_State" where
  "lua_pushlstring s len L = LString (take len s) # L"

text \<open>
  Modelled from the spec: \<open>lua_createtable\<close> and \<open>lua_newtable\<close>, absent from the
  sources: "create empty indexed/associative table of given size hint". The hints
  preallocate and do not show in the contents.
\<close>

definition lua_createtable :: "int \<Rightarrow> int \<Rightarrow> lua_State \<Rightarrow> lua_State" where
  "lua_createtable narr nrec L = LTable [] # L"

definition lua_newtable :: "lua_State \<Rightarrow> lua_State" where
  "lua_newtable L = lua_createtable 0 0 L"

text \<open>
  Modelled from the spec: the runtime's stack indices, absent from the sources. A
  positive index counts from the bottom, a negative one from the top. The result is the
  position in the list, or \<open>None\<close> for an index outside the stack.
\<close>

definition index2adr :: "lua_State \<Rightarrow> int \<Rightarrow> nat option" where
  "index2adr L idx =
     (if 0 < idx \<and> idx \<le> int (length L) then Some (length L - nat idx)
      else if idx < 0 \<and> - idx \<le> int (length L) then Some (nat (- idx) - 1)
      else None)"

text \<open>
  Modelled from the spec: \<open>lua_rawseti\<close>, absent from the sources: "store value at
  index". It stores the value on top of the stack at integer key \<open>n\<close> of the table at
  \<open>idx\<close> and pops the value. A slot that holds no table is a fault of the runtime.
\<close>

definition lua_rawseti :: "int \<Rightarrow> int \<Rightarrow> lua_State \<Rightarrow> outcome" where
  "lua_rawseti idx n L =
     (case L of
        [] \<Rightarrow> Thrown (lua_error ''stack underflow'') L
      | v # _ \<Rightarrow>
          (case index2adr L idx of
             None \<Rightarrow> Thrown (lua_error ''invalid index'') L
           | Some p \<Rightarrow>
               (case L ! p of
                  LTable t \<Rightarrow> Returned (tl (L[p := LTable (luaH_set t (index_key n) v)]))
                | _ \<Rightarrow> Thrown (lua_error ''table expected'') L)))"

text \<open>
  Modelled from the spec: \<open>lua_settable\<close>, absent from the sources: "store key/value
  pair". The value is on top of the stack and the key below it; both are popped. The
  runtime refuses a key that is nil or NaN, and a slot that holds no table: "the
  runtime's own push primitives always succeed or fault the whole runtime".
\<close>

definition lua_settable :: "int \<Rightarrow> lua_State \<Rightarrow> outcome" where
  "lua_settable idx L =
     (case L of
        v # k # _ \<Rightarrow>
          (case index2adr L idx of
             None \<Rightarrow> Thrown (lua_error ''invalid index'') L
           | Some p \<Rightarrow>
               (case L ! p of
                  LTable t \<Rightarrow>
                    if k = LNil then Thrown (lua_error ''table index is nil'') L
                    else if k = LNumber NaN then Thrown (lua_error ''table index is NaN'') L
                    else Returned (drop 2 (L[p := LTable (luaH_set t k v)]))
                | _ \<Rightarrow> Thrown (lua_error ''attempt to index a non-table value'') L))
      | _ \<Rightarrow> Thrown (lua_error ''stack underflow'') L)"

section \<open>The host side\<close>

subsection \<open>External collaborators\<close>

text \<open>
  Modelled from the spec: \<open>lua_pushelement\<close>, absent from the sources: "push an opaque
  handle value that the runtime can later use to look the object back up"; "Null/empty
  references push the none value, not a handle."
\<close>

definition lua_pushelement :: "pointer \<Rightarrow> lua_State \<Rightarrow> lua_State" where
  "lua_pushelement val L = (if val = 0 then lua_pushnil L else LUserdata val # L)"

text \<open>
  Modelled from the spec: \<open>lua_pushvector\<close> (one overload for each of \<open>CVector2D\<close>,
  \<open>CVector\<close>, \<open>CVector4D\<close>) and \<open>lua_pushmatrix\<close>, absent from the sources: "push
  opaque vector/matrix value".
\<close>

datatype CVector2D = CVector2D lua_Number lua_Number
datatype CVector = CVector lua_Number lua_Number lua_Number
datatype CVector4D = CVector4D lua_Number lua_Number lua_Number lua_Number
datatype CMatrix = CMatrix CVector CVector CVector CVector

fun lua_pushvector2D :: "CVector2D \<Rightarrow> lua_State \<Rightarrow> lua_State" where
  "lua_pushvector2D (CVector2D x y) L = LVector [x, y] # L"

fun lua_pushvector3D :: "CVector \<Rightarrow> lua_State \<Rightarrow> lua_State" where
  "lua_pushvector3D (CVector x y z) L = LVector [x, y, z] # L"

fun lua_pushvector4D :: "CVector4D \<Rightarrow> lua_State \<Rightarrow> lua_State" where
  "lua_pushvector4D (CVector4D x y z w) L = LVector [x, y, z, w] # L"

fun components :: "CVector \<Rightarrow> lua_Number list" where
  "components (CVector x y z) = [x, y, z]"

fun lua_pushmatrix :: "CMatrix \<Rightarrow> lua_State \<Rightarrow> lua_State" where
  "lua_pushmatrix (CMatrix vRight vFront vUp vPos) L =
     LMatrix (components vRight @ components vFront @ components vUp @ components vPos) # L"

text \<open>
  Modelled from the spec: \<open>CLuaArgument\<close>, absent from the sources: "a value of one of
  several runtime-facing primitive/container types, determined at runtime", with
  \<open>GetTag() -> {Concrete type tag | NoValue}\<close> and \<open>PushSelf(runtime)\<close>. A wrapper
  tagged \<open>LUA_TNONE\<close> holds nothing, and its own \<open>Push\<close> pushes nothing.
\<close>

datatype CLuaArgument = NoValue | HasValue lua_value

definition LUA_TNONE :: int where "LUA_TNONE = - 1"
definition LUA_TNIL :: int where "LUA_TNIL = 0"
definition LUA_TBOOLEAN :: int where "LUA_TBOOLEAN = 1"
definition LUA_TNUMBER :: int where "LUA_TNUMBER = 3"
definition LUA_TSTRING :: int where "LUA_TSTRING = 4"
definition LUA_TTABLE :: int where "LUA_TTABLE = 5"
definition LUA_TUSERDATA :: int where "LUA_TUSERDATA = 7"

fun lua_type :: "lua_value \<Rightarrow> int" where
  "lua_type LNil = LUA_TNIL"
| "lua_type (LBoolean b) = LUA_TBOOLEAN"
| "lua_type (LNumber n) = LUA_TNUMBER"
| "lua_type (LString s) = LUA_TSTRING"
| "lua_type (LTable t) = LUA_TTABLE"
| "lua_type (LUserdata p) = LUA_TUSERDATA"
| "lua_type (LVector xs) = LUA_TUSERDATA"
| "lua_type (LMatrix xs) = LUA_TUSERDATA"

fun GetType :: "CLuaArgument \<Rightarrow> int" where
  "GetType NoValue = LUA_TNONE"
| "GetType (HasValue v) = lua_type v"

fun CLuaArgument_Push :: "CLuaArgument \<Rightarrow> lua_State \<Rightarrow> lua_State" where
  "CLuaArgument_Push NoValue L = L"
| "CLuaArgument_Push (HasValue v) L = v # L"

text \<open>
  Modelled from the spec: \<open>CLuaArguments::PushAsTable\<close>, absent from the sources: "an
  external ordered-list-of-generic-values type; pushes one indexed table".
\<close>

fun arguments_table :: "CLuaArgument list \<Rightarrow> int \<Rightarrow> lua_table \<Rightarrow> lua_table" where
  "arguments_table [] i t = t"
| "arguments_table (NoValue # args) i t = arguments_table args (i + 1) t"
| "arguments_table (HasValue v # args) i t =
     arguments_table args (i + 1) (luaH_set t (index_key i) v)"

definition PushAsTable :: "CLuaArgument list \<Rightarrow> lua_State \<Rightarrow> lua_State" where
  "PushAsTable args L = LTable (arguments_table args 1 []) # L"

subsection \<open>Host values\<close>

text \<open>
  The overloads of \<open>lua::Push\<close> are selected by the static type of the argument. One
  datatype collects the types that have an overload; the constructor stands for the
  static type. \<open>'e\<close> is the type of enumeration values, and \<open>EnumToString\<close>, which the
  header only calls, is a parameter of the dispatch. A \<open>std::unordered_map\<close> is the list
  of its entries in iteration order; smart pointers are the pointer \<open>get()\<close> returns.

  A \<open>std::variant\<close> either holds one of its alternatives, given by its index and the
  held value, or is valueless by exception (an assignment or \<open>emplace\<close> that threw has
  left it without a value).
  The elements of a C++ container all have one type; the lists here may mix
  constructors, so what is proved for all lists holds for the containers.
\<close>

datatype 'a std_variant =
    valueless_by_exception: Valueless
  | Holding (index: nat) (std_get: 'a)

datatype 'e host_value =
    HInt "32 word"
  | HUnsigned "32 word"
  | HFloat lua_Number
  | HDouble lua_Number
  | HBool bool
  | HNullptr
  | HString string
  | HLuaArgument CLuaArgument
  | HLuaArguments "CLuaArgument list"
  | HVector2D CVector2D
  | HVector3D CVector
  | HVector4D CVector4D
  | HMatrix CMatrix
  | HEnum 'e
  | HPointer pointer
  | HSharedPtr pointer
  | HUniquePtr pointer
  | HVariant "'e host_value std_variant"
  | HOptional "'e host_value option"
  | HArray "'e host_value list"
  | HStdVector "'e host_value list"
  | HUnorderedMap "('e host_value \<times> 'e host_value) list"
  | HTuple "'e host_value list"

section \<open>lua::Push\<close>

subsection \<open>Leaf, enum and reference pushers (lines 33 to 128)\<close>

definition Push_int :: "int \<Rightarrow> lua_State \<Rightarrow> lua_State" where
  "Push_int val L = lua_pushnumber (Finite (of_int val)) L"

definition Push_unsigned :: "nat \<Rightarrow> lua_State \<Rightarrow> lua_State" where
  "Push_unsigned val L = lua_pushnumber (Finite (of_nat val)) L"

definition Push_float :: "lua_Number \<Rightarrow> lua_State \<Rightarrow> lua_State" where
  "Push_float val L = lua_pushnumber val L"

definition Push_double :: "lua_Number \<Rightarrow> lua_State \<Rightarrow> lua_State" where
  "Push_double val L = lua_pushnumber val L"

definition Push_bool :: "bool \<Rightarrow> lua_State \<Rightarrow> lua_State" where
  "Push_bool val L = lua_pushboolean val L"

definition Push_nullptr :: "lua_State \<Rightarrow> lua_State" where
  "Push_nullptr L = lua_pushnil L"

definition Push_string :: "string \<Rightarrow> lua_State \<Rightarrow> lua_State" where
  "Push_string val L = lua_pushlstring val (length val) L"

definition Push_CLuaArgument :: "CLuaArgument \<Rightarrow> lua_State \<Rightarrow> outcome" where
  "Push_CLuaArgument arg L =
     (if GetType arg = LUA_TNONE then Thrown (std_logic_error ''lua::Push'') L
      else Returned (CLuaArgument_Push arg L))"

definition Push_CLuaArguments :: "CLuaArgument list \<Rightarrow> lua_State \<Rightarrow> lua_State" where
  "Push_CLuaArguments args L = PushAsTable args L"

definition Push_CVector2D :: "CVector2D \<Rightarrow> lua_State \<Rightarrow> lua_State" where
  "Push_CVector2D val L = lua_pushvector2D val L"

definition Push_CVector :: "CVector \<Rightarrow> lua_State \<Rightarrow> lua_State" where
  "Push_CVector val L = lua_pushvector3D val L"

definition Push_CVector4D :: "CVector4D \<Rightarrow> lua_State \<Rightarrow> lua_State" where
  "Push_CVector4D val L = lua_pushvector4D val L"

definition Push_CMatrix :: "CMatrix \<Rightarrow> lua_State \<Rightarrow> lua_State" where
  "Push_CMatrix val L = lua_pushmatrix val L"

definition Push_enum :: "('e \<Rightarrow> string) \<Rightarrow> 'e \<Rightarrow> lua_State \<Rightarrow> lua_State" where
  "Push_enum EnumToString val L = Push_string (EnumToString val) L"

definition Push_pointer :: "pointer \<Rightarrow> lua_State \<Rightarrow> lua_State" where
  "Push_pointer val L = lua_pushelement val L"

definition Push_shared_ptr :: "pointer \<Rightarrow> lua_State \<Rightarrow> lua_State" where
  "Push_shared_ptr ptr L = lua_pushelement ptr L"

definition Push_unique_ptr :: "pointer \<Rightarrow> lua_State \<Rightarrow> lua_State" where
  "Push_unique_ptr ptr L = lua_pushelement ptr L"

subsection \<open>Composite pushers and the dispatch (lines 156 to 225)\<close>

text \<open>
  The composite pushers call \<open>Push\<close> on their elements, so they are defined together
  with the dispatch. Each range-based \<open>for\<close> loop is a recursion over the remaining
  elements; the fold expression of the tuple pusher visits the components from left to
  right in the same way. \<open>std::visit\<close> throws \<open>std::bad_variant_access\<close> on a variant
  that is valueless by exception, and calls the visitor, here \<open>Push\<close>, on the held
  alternative otherwise.

  The loop counters start at 1 and are incremented after each store. The vector and
  tuple pushers count in an \<open>int\<close>; the array pusher counts in a \<open>lua_Number\<close> that
  \<open>lua_rawseti\<close> receives as an \<open>int\<close>. A table of the runtime holds far fewer than
  \<open>2^31\<close> entries (the capacity of the runtime, like that of its stack, is not part of
  this model), so no counter reaches the end of the range of \<open>int\<close>, and the counters
  are integers here.
\<close>

function (sequential) Push :: "('e \<Rightarrow> string) \<Rightarrow> 'e host_value \<Rightarrow> lua_State \<Rightarrow> outcome"
  and Push_array_loop :: "('e \<Rightarrow> string) \<Rightarrow> 'e host_value list \<Rightarrow> int \<Rightarrow> lua_State \<Rightarrow> outcome"
  and Push_vector_loop :: "('e \<Rightarrow> string) \<Rightarrow> 'e host_value list \<Rightarrow> int \<Rightarrow> lua_State \<Rightarrow> outcome"
  and Push_map_loop :: "('e \<Rightarrow> string) \<Rightarrow> ('e host_value \<times> 'e host_value) list \<Rightarrow> lua_State \<Rightarrow> outcome"
  and Push_tuple_loop :: "('e \<Rightarrow> string) \<Rightarrow> 'e host_value list \<Rightarrow> int \<Rightarrow> lua_State \<Rightarrow> outcome"
where
  "Push E (HInt val) L = Returned (Push_int (sint val) L)"
| "Push E (HUnsigned val) L = Returned (Push_unsigned (unat val) L)"
| "Push E (HFloat val) L = Returned (Push_float val L)"
| "Push E (HDouble val) L = Returned (Push_double val L)"
| "Push E (HBool val) L = Returned (Push_bool val L)"
| "Push E HNullptr L = Returned (Push_nullptr L)"
| "Push E (HString val) L = Returned (Push_string val L)"
| "Push E (HLuaArgument arg) L = Push_CLuaArgument arg L"
| "Push E (HLuaArguments args) L = Returned (Push_CLuaArguments args L)"
| "Push E (HVector2D val) L = Returned (Push_CVector2D val L)"
| "Push E (HVector3D val) L = Returned (Push_CVector val L)"
| "Push E (HVector4D val) L = Returned (Push_CVector4D val L)"
| "Push E (HMatrix val) L = Returned (Push_CMatrix val L)"
| "Push E (HEnum val) L = Returned (Push_enum E val L)"
| "Push E (HPointer val) L = Returned (Push_pointer val L)"
| "Push E (HSharedPtr ptr) L = Returned (Push_shared_ptr ptr L)"
| "Push E (HUniquePtr ptr) L = Returned (Push_unique_ptr ptr L)"
| "Push E (HVariant Valueless) L = Thrown std_bad_variant_access L"
| "Push E (HVariant (Holding i held)) L = Push E held L"
| "Push E (HOptional None) L = Returned (Push_nullptr L)"
| "Push E (HOptional (Some held)) L = Push E held L"
| "Push E (HArray val) L = Push_array_loop E val 1 (lua_createtable (int (length val)) 0 L)"
| "Push E (HStdVector val) L = Push_vector_loop E val 1 (lua_newtable L)"
| "Push E (HUnorderedMap val) L = Push_map_loop E val (lua_newtable L)"
| "Push E (HTuple tuple) L = Push_tuple_loop E tuple 1 (lua_createtable (int (length tuple)) 0 L)"
| "Push_array_loop E [] i L = Returned L"
| "Push_array_loop E (v # rest) i L =
     (case Push E v L of
        Thrown e L1 \<Rightarrow> Thrown e L1
      | Returned L1 \<Rightarrow>
          (case lua_rawseti (- 2) i L1 of
             Thrown e L2 \<Rightarrow> Thrown e L2
           | Returned L2 \<Rightarrow> Push_array_loop E rest (i + 1) L2))"
| "Push_vector_loop E [] i L = Returned L"
| "Push_vector_loop E (v # rest) i L =
     (case Push E v (Push_int i L) of
        Thrown e L1 \<Rightarrow> Thrown e L1
      | Returned L1 \<Rightarrow>
          (case lua_settable (- 3) L1 of
             Thrown e L2 \<Rightarrow> Thrown e L2
           | Returned L2 \<Rightarrow> Push_vector_loop E rest (i + 1) L2))"
| "Push_map_loop E [] L = Returned L"
| "Push_map_loop E ((k, v) # rest) L =
     (case Push E k L of
        Thrown e L1 \<Rightarrow> Thrown e L1
      | Returned L1 \<Rightarrow>
          (case Push E v L1 of
             Thrown e L2 \<Rightarrow> Thrown e L2
           | Returned L2 \<Rightarrow>
               (case lua_settable (- 3) L2 of
                  Thrown e L3 \<Rightarrow> Thrown e L3
                | Returned L3 \<Rightarrow> Push_map_loop E rest L3)))"
| "Push_tuple_loop E [] key L = Returned L"
| "Push_tuple_loop E (v # rest) key L =
     (case Push E v L of
        Thrown e L1 \<Rightarrow> Thrown e L1
      | Returned L1 \<Rightarrow>
          (case lua_rawseti (- 2) key L1 of
             Thrown e L2 \<Rightarrow> Thrown e L2
           | Returned L2 \<Rightarrow> Push_tuple_loop E rest (key + 1) L2))"
  by pat_completeness auto

termination
  by (relation "measure (\<lambda>x. case x of
        Inl (Inl (E, v, L)) \<Rightarrow> size v
      | Inl (Inr (E, vs, i, L)) \<Rightarrow> size_list size vs
      | Inr (Inl (E, vs, i, L)) \<Rightarrow> size_list size vs
      | Inr (Inr (Inl (E, kvs, L))) \<Rightarrow> size_list (size_prod size size) kvs
      | Inr (Inr (Inr (E, vs, i, L))) \<Rightarrow> size_list size vs)") auto

text \<open>
  The foreign value obtained by pushing \<open>v\<close> directly: what one call leaves on top of
  an empty stack, when it returns.
\<close>

definition pushed :: "('e \<Rightarrow> string) \<Rightarrow> 'e host_value \<Rightarrow> lua_value option" where
  "pushed E v = (case Push E v [] of Returned (x # _) \<Rightarrow> Some x | _ \<Rightarrow> None)"

subsection \<open>When a push returns\<close>

text \<open>
  \<open>Push\<close> has one guard of its own, the \<open>LUA_TNONE\<close> check of the \<open>CLuaArgument\<close>
  overload. \<open>meets_guard\<close> holds of the host values that hand a wrapper tagged
  \<open>LUA_TNONE\<close> to \<open>Push\<close>: the value itself, or a value held by an optional or a
  variant, or an element, key, value or component of a container, at any depth. The
  arguments of a \<open>CLuaArguments\<close> list are pushed by \<open>PushAsTable\<close> and do not pass
  the guard.
\<close>

fun meets_guard :: "'e host_value \<Rightarrow> bool" where
  "meets_guard (HLuaArgument arg) = (GetType arg = LUA_TNONE)"
| "meets_guard (HVariant Valueless) = False"
| "meets_guard (HVariant (Holding i held)) = meets_guard held"
| "meets_guard (HOptional None) = False"
| "meets_guard (HOptional (Some held)) = meets_guard held"
| "meets_guard (HArray val) = (\<exists>v\<in>set val. meets_guard v)"
| "meets_guard (HStdVector val) = (\<exists>v\<in>set val. meets_guard v)"
| "meets_guard (HUnorderedMap val) = (\<exists>(k, v)\<in>set val. meets_guard k \<or> meets_guard v)"
| "meets_guard (HTuple tuple) = (\<exists>v\<in>set tuple. meets_guard v)"
| "meets_guard _ = False"

text \<open>
  Two callees can fault besides: \<open>std::visit\<close> on a variant without a value, and
  \<open>lua_settable\<close> on a key that is nil or NaN, which only the map pusher can hand it.
  \<open>marshalable\<close> collects the host values that meet none of the three: no wrapper
  tagged \<open>LUA_TNONE\<close> handed to \<open>Push\<close>, no variant without a value, and no map key
  whose foreign value is nil or NaN.
\<close>

definition valid_key :: "lua_value option \<Rightarrow> bool" where
  "valid_key x = (x \<noteq> None \<and> x \<noteq> Some LNil \<and> x \<noteq> Some (LNumber NaN))"

fun marshalable :: "('e \<Rightarrow> string) \<Rightarrow> 'e host_value \<Rightarrow> bool" where
  "marshalable E (HLuaArgument arg) = (GetType arg \<noteq> LUA_TNONE)"
| "marshalable E (HVariant Valueless) = False"
| "marshalable E (HVariant (Holding i held)) = marshalable E held"
| "marshalable E (HOptional None) = True"
| "marshalable E (HOptional (Some held)) = marshalable E held"
| "marshalable E (HArray val) = (\<forall>v\<in>set val. marshalable E v)"
| "marshalable E (HStdVector val) = (\<forall>v\<in>set val. marshalable E v)"
| "marshalable E (HUnorderedMap val) =
     (\<forall>(k, v)\<in>set val. marshalable E k \<and> marshalable E v \<and> valid_key (pushed E k))"
| "marshalable E (HTuple tuple) = (\<forall>v\<in>set tuple. marshalable E v)"
| "marshalable E _ = True"

text \<open>
  The table a counting loop builds: the values stored one after the other from index
  \<open>i\<close> on.
\<close>

fun store_seq :: "lua_table \<Rightarrow> int \<Rightarrow> lua_value list \<Rightarrow> lua_table" where
  "store_seq t i [] = t"
| "store_seq t i (y # ys) = store_seq (luaH_set t (index_key i) y) (i + 1) ys"

section \<open>Properties of the primitives and of the loops\<close>

subsection \<open>Stores at the slots the pushers use\<close>

lemma luaH_get_set: "luaH_get (luaH_set t k v) k' = (if k' = k then v else luaH_get t k')"
  by (simp add: luaH_get_def luaH_set_def update_conv' delete_conv')

lemma lua_rawseti_top:
  "lua_rawseti (- 2) n (v # LTable t # L) = Returned (LTable (luaH_set t (index_key n) v) # L)"
  by (simp add: lua_rawseti_def index2adr_def)

lemma lua_settable_top:
  "lua_settable (- 3) (v # k # LTable t # L) =
     (if k = LNil then Thrown (lua_error ''table index is nil'') (v # k # LTable t # L)
      else if k = LNumber NaN then Thrown (lua_error ''table index is NaN'') (v # k # LTable t # L)
      else Returned (LTable (luaH_set t k v) # L))"
  by (simp add: lua_settable_def index2adr_def)

lemma lua_settable_bad_key:
  "k = LNil \<or> k = LNumber NaN \<Longrightarrow> \<not> is_Returned (lua_settable idx (v # k # L))"
  by (auto simp add: lua_settable_def split: option.splits lua_value.splits)

lemma index_key_valid: "index_key i \<noteq> LNil" "index_key i \<noteq> LNumber NaN"
  by (simp_all add: index_key_def)

lemma Push_int_key: "Push_int i L = index_key i # L"
  by (simp add: Push_int_def lua_pushnumber_def index_key_def)

subsection \<open>Loops whose elements all push\<close>

lemma Push_array_loop_returns:
  assumes "\<forall>v\<in>set vs. \<forall>L. Push E v L = Returned (f v # L)"
  shows "Push_array_loop E vs i (LTable t # L) = Returned (LTable (store_seq t i (map f vs)) # L)"
  using assms
  by (induction vs arbitrary: t i) (simp_all add: lua_rawseti_top)

lemma Push_tuple_loop_returns:
  assumes "\<forall>v\<in>set vs. \<forall>L. Push E v L = Returned (f v # L)"
  shows "Push_tuple_loop E vs i (LTable t # L) = Returned (LTable (store_seq t i (map f vs)) # L)"
  using assms
  by (induction vs arbitrary: t i) (simp_all add: lua_rawseti_top)

lemma Push_vector_loop_returns:
  assumes "\<forall>v\<in>set vs. \<forall>L. Push E v L = Returned (f v # L)"
  shows "Push_vector_loop E vs i (LTable t # L) = Returned (LTable (store_seq t i (map f vs)) # L)"
  using assms
  by (induction vs arbitrary: t i)
     (simp_all add: lua_settable_top Push_int_key index_key_valid)

lemma Push_map_loop_returns:
  assumes "\<forall>(k, v)\<in>set kvs. (\<forall>L. Push E k L = Returned (f k # L)) \<and>
             (\<forall>L. Push E v L = Returned (f v # L)) \<and> f k \<noteq> LNil \<and> f k \<noteq> LNumber NaN"
  shows "Push_map_loop E kvs (LTable t # L) =
           Returned (LTable (foldl (\<lambda>t (k, v). luaH_set t (f k) (f v)) t kvs) # L)"
  using assms
proof (induction kvs arbitrary: t)
  case Nil
  show ?case by simp
next
  case (Cons kv kvs)
  obtain k v where kv: "kv = (k, v)" by (cases kv)
  from Cons.prems kv have step:
    "Push_map_loop E (kv # kvs) (LTable t # L) =
       Push_map_loop E kvs (LTable (luaH_set t (f k) (f v)) # L)"
    by (simp add: lua_settable_top)
  from Cons.prems have "\<forall>(k, v)\<in>set kvs. (\<forall>L. Push E k L = Returned (f k # L)) \<and>
             (\<forall>L. Push E v L = Returned (f v # L)) \<and> f k \<noteq> LNil \<and> f k \<noteq> LNumber NaN"
    by simp
  from Cons.IH [OF this] step kv show ?case by simp
qed

subsection \<open>Loops with an element that throws\<close>

lemma Push_array_loop_throws:
  assumes "v \<in> set vs" and "\<forall>L. \<not> is_Returned (Push E v L)"
  shows "\<not> is_Returned (Push_array_loop E vs i L)"
  using assms
proof (induction vs arbitrary: i L)
  case Nil
  then show ?case by simp
next
  case (Cons a vs)
  show ?case
  proof (cases "Push E a L")
    case (Thrown e L1)
    then show ?thesis by simp
  next
    case (Returned L1)
    with Cons.prems have "v \<in> set vs"
      by (metis outcome.disc(1) set_ConsD)
    with Cons.IH Cons.prems(2) have "\<And>i L. \<not> is_Returned (Push_array_loop E vs i L)"
      by blast
    with Returned show ?thesis
      by (simp split: outcome.splits)
  qed
qed

lemma Push_tuple_loop_throws:
  assumes "v \<in> set vs" and "\<forall>L. \<not> is_Returned (Push E v L)"
  shows "\<not> is_Returned (Push_tuple_loop E vs i L)"
  using assms
proof (induction vs arbitrary: i L)
  case Nil
  then show ?case by simp
next
  case (Cons a vs)
  show ?case
  proof (cases "Push E a L")
    case (Thrown e L1)
    then show ?thesis by simp
  next
    case (Returned L1)
    with Cons.prems have "v \<in> set vs"
      by (metis outcome.disc(1) set_ConsD)
    with Cons.IH Cons.prems(2) have "\<And>i L. \<not> is_Returned (Push_tuple_loop E vs i L)"
      by blast
    with Returned show ?thesis
      by (simp split: outcome.splits)
  qed
qed

lemma Push_vector_loop_throws:
  assumes "v \<in> set vs" and "\<forall>L. \<not> is_Returned (Push E v L)"
  shows "\<not> is_Returned (Push_vector_loop E vs i L)"
  using assms
proof (induction vs arbitrary: i L)
  case Nil
  then show ?case by simp
next
  case (Cons a vs)
  show ?case
  proof (cases "Push E a (Push_int i L)")
    case (Thrown e L1)
    then show ?thesis by simp
  next
    case (Returned L1)
    with Cons.prems have "v \<in> set vs"
      by (metis outcome.disc(1) set_ConsD)
    with Cons.IH Cons.prems(2) have "\<And>i L. \<not> is_Returned (Push_vector_loop E vs i L)"
      by blast
    with Returned show ?thesis
      by (simp split: outcome.splits)
  qed
qed

lemma Push_map_loop_throws:
  assumes "(k, v) \<in> set kvs"
    and "(\<forall>L. \<not> is_Returned (Push E k L)) \<or> (\<forall>L. \<not> is_Returned (Push E v L)) \<or>
         (\<exists>x y. (x = LNil \<or> x = LNumber NaN) \<and> (\<forall>L. Push E k L = Returned (x # L)) \<and>
                (\<forall>L. Push E v L = Returned (y # L)))"
  shows "\<not> is_Returned (Push_map_loop E kvs L)"
  using assms(1)
proof (induction kvs arbitrary: L)
  case Nil
  then show ?case by simp
next
  case (Cons a kvs)
  obtain k' v' where a: "a = (k', v')" by (cases a)
  show ?case
  proof (cases "a = (k, v)")
    case True
    with a have kv: "k' = k" "v' = v" by simp_all
    from assms(2) consider
        (key) "\<forall>L. \<not> is_Returned (Push E k L)"
      | (val) "\<forall>L. \<not> is_Returned (Push E v L)"
      | (store) x y where "x = LNil \<or> x = LNumber NaN"
          "\<forall>L. Push E k L = Returned (x # L)" "\<forall>L. Push E v L = Returned (y # L)"
      by blast
    then show ?thesis
    proof cases
      case key
      then have "\<not> is_Returned (Push E k L)" by blast
      then show ?thesis
        by (cases "Push E k L") (simp_all add: a kv)
    next
      case val
      show ?thesis
      proof (cases "Push E k L")
        case (Returned L1)
        from val have "\<not> is_Returned (Push E v L1)" by blast
        with Returned show ?thesis
          by (cases "Push E v L1") (simp_all add: a kv)
      next
        case (Thrown e L1)
        then show ?thesis by (simp add: a kv)
      qed
    next
      case store
      from store(1) have "\<not> is_Returned (lua_settable (- 3) (y # x # L))"
        by (rule lua_settable_bad_key)
      then show ?thesis
        by (cases "lua_settable (- 3) (y # x # L)") (simp_all add: a kv store)
    qed
  next
    case False
    with Cons.prems have "(k, v) \<in> set kvs" by simp
    with Cons.IH have "\<And>L. \<not> is_Returned (Push_map_loop E kvs L)" by blast
    then show ?thesis
      by (simp add: a split: outcome.splits)
  qed
qed


subsection \<open>Every push either always returns one value or never returns\<close>

lemma pushed_eq: "\<forall>L. Push E v L = Returned (x # L) \<Longrightarrow> pushed E v = Some x"
  by (simp add: pushed_def)

lemma Push_the_pushed:
  "\<exists>x. \<forall>L. Push E v L = Returned (x # L) \<Longrightarrow> \<forall>L. Push E v L = Returned (the (pushed E v) # L)"
proof -
  assume "\<exists>x. \<forall>L. Push E v L = Returned (x # L)"
  then obtain x where x: "\<forall>L. Push E v L = Returned (x # L)" ..
  then have "pushed E v = Some x" by (rule pushed_eq)
  with x show ?thesis by simp
qed

lemma leaf_shapes:
  "\<exists>x. \<forall>L. lua_pushvector2D a L = x # L"
  "\<exists>x. \<forall>L. lua_pushvector3D b L = x # L"
  "\<exists>x. \<forall>L. lua_pushvector4D c L = x # L"
  "\<exists>x. \<forall>L. lua_pushmatrix m L = x # L"
  "\<exists>x. \<forall>L. lua_pushelement p L = x # L"
proof -
  show "\<exists>x. \<forall>L. lua_pushvector2D a L = x # L" by (cases a) simp
  show "\<exists>x. \<forall>L. lua_pushvector3D b L = x # L" by (cases b) simp
  show "\<exists>x. \<forall>L. lua_pushvector4D c L = x # L" by (cases c) simp
  show "\<exists>x. \<forall>L. lua_pushmatrix m L = x # L" by (cases m) simp
  show "\<exists>x. \<forall>L. lua_pushelement p L = x # L"
    by (cases "p = 0") (simp_all add: lua_pushelement_def lua_pushnil_def)
qed

lemma Push_CLuaArgument_shape:
  "(GetType arg \<noteq> LUA_TNONE \<longrightarrow> (\<exists>x. \<forall>L. Push_CLuaArgument arg L = Returned (x # L))) \<and>
   (GetType arg = LUA_TNONE \<longrightarrow> (\<forall>L. Push_CLuaArgument arg L = Thrown (std_logic_error ''lua::Push'') L))"
  by (cases arg) (simp_all add: Push_CLuaArgument_def)

lemma Push_uniform:
  "(marshalable E v \<longrightarrow> (\<exists>x. \<forall>L. Push E v L = Returned (x # L))) \<and>
   (\<not> marshalable E v \<longrightarrow> (\<forall>L. \<not> is_Returned (Push E v L)))"
proof (induction v)
  case (HLuaArgument arg)
  from Push_CLuaArgument_shape [of arg] show ?case by auto
next
  case (HVariant var)
  then show ?case by (cases var) simp_all
next
  case (HOptional opt)
  then show ?case
    by (cases opt) (simp_all add: Push_nullptr_def lua_pushnil_def)
next
  case (HArray val)
  show ?case
  proof (cases "marshalable E (HArray val)")
    case True
    with HArray have "\<forall>v\<in>set val. \<forall>L. Push E v L = Returned (the (pushed E v) # L)"
      by (simp add: Push_the_pushed)
    then have "\<And>L. Push E (HArray val) L =
        Returned (LTable (store_seq [] 1 (map (\<lambda>v. the (pushed E v)) val)) # L)"
      by (simp add: lua_createtable_def Push_array_loop_returns)
    with True show ?thesis by blast
  next
    case False
    then obtain v where "v \<in> set val" "\<not> marshalable E v" by auto
    with HArray have "v \<in> set val" "\<forall>L. \<not> is_Returned (Push E v L)" by blast+
    then have "\<And>i L. \<not> is_Returned (Push_array_loop E val i L)"
      by (rule Push_array_loop_throws)
    with False show ?thesis by (simp del: marshalable.simps)
  qed
next
  case (HStdVector val)
  show ?case
  proof (cases "marshalable E (HStdVector val)")
    case True
    with HStdVector have "\<forall>v\<in>set val. \<forall>L. Push E v L = Returned (the (pushed E v) # L)"
      by (simp add: Push_the_pushed)
    then have "\<And>L. Push E (HStdVector val) L =
        Returned (LTable (store_seq [] 1 (map (\<lambda>v. the (pushed E v)) val)) # L)"
      by (simp add: lua_newtable_def lua_createtable_def Push_vector_loop_returns)
    with True show ?thesis by blast
  next
    case False
    then obtain v where "v \<in> set val" "\<not> marshalable E v" by auto
    with HStdVector have "v \<in> set val" "\<forall>L. \<not> is_Returned (Push E v L)" by blast+
    then have "\<And>i L. \<not> is_Returned (Push_vector_loop E val i L)"
      by (rule Push_vector_loop_throws)
    with False show ?thesis by (simp del: marshalable.simps)
  qed
next
  case (HTuple val)
  show ?case
  proof (cases "marshalable E (HTuple val)")
    case True
    with HTuple have "\<forall>v\<in>set val. \<forall>L. Push E v L = Returned (the (pushed E v) # L)"
      by (simp add: Push_the_pushed)
    then have "\<And>L. Push E (HTuple val) L =
        Returned (LTable (store_seq [] 1 (map (\<lambda>v. the (pushed E v)) val)) # L)"
      by (simp add: lua_createtable_def Push_tuple_loop_returns)
    with True show ?thesis by blast
  next
    case False
    then obtain v where "v \<in> set val" "\<not> marshalable E v" by auto
    with HTuple have "v \<in> set val" "\<forall>L. \<not> is_Returned (Push E v L)" by blast+
    then have "\<And>i L. \<not> is_Returned (Push_tuple_loop E val i L)"
      by (rule Push_tuple_loop_throws)
    with False show ?thesis by (simp del: marshalable.simps)
  qed
next
  case (HUnorderedMap val)
  have IH: "(marshalable E w \<longrightarrow> (\<exists>x. \<forall>L. Push E w L = Returned (x # L))) \<and>
            (\<not> marshalable E w \<longrightarrow> (\<forall>L. \<not> is_Returned (Push E w L)))"
    if "(k, v) \<in> set val" "w = k \<or> w = v" for k v w
    using that HUnorderedMap [of "(k, v)" w] by auto
  show ?case
  proof (cases "marshalable E (HUnorderedMap val)")
    case True
    have "\<forall>(k, v)\<in>set val.
            (\<forall>L. Push E k L = Returned (the (pushed E k) # L)) \<and>
            (\<forall>L. Push E v L = Returned (the (pushed E v) # L)) \<and>
            the (pushed E k) \<noteq> LNil \<and> the (pushed E k) \<noteq> LNumber NaN"
    proof (clarify, intro conjI)
      fix k v assume kv: "(k, v) \<in> set val"
      with True have m: "marshalable E k" "marshalable E v" "valid_key (pushed E k)"
        by auto
      from IH [OF kv, of k] m show "\<forall>L. Push E k L = Returned (the (pushed E k) # L)"
        by (simp add: Push_the_pushed)
      from IH [OF kv, of v] m show "\<forall>L. Push E v L = Returned (the (pushed E v) # L)"
        by (simp add: Push_the_pushed)
      from m(3) show "the (pushed E k) \<noteq> LNil" "the (pushed E k) \<noteq> LNumber NaN"
        by (auto simp add: valid_key_def)
    qed
    then have "\<And>L. Push E (HUnorderedMap val) L =
        Returned (LTable (foldl (\<lambda>t (k, v). luaH_set t (the (pushed E k)) (the (pushed E v)))
                            [] val) # L)"
      by (simp add: lua_newtable_def lua_createtable_def
            Push_map_loop_returns [where f = "\<lambda>v. the (pushed E v)"])
    with True show ?thesis by blast
  next
    case False
    then obtain k v where kv: "(k, v) \<in> set val"
      and bad: "\<not> marshalable E k \<or> \<not> marshalable E v \<or> \<not> valid_key (pushed E k)"
      by auto
    have "(\<forall>L. \<not> is_Returned (Push E k L)) \<or> (\<forall>L. \<not> is_Returned (Push E v L)) \<or>
         (\<exists>x y. (x = LNil \<or> x = LNumber NaN) \<and> (\<forall>L. Push E k L = Returned (x # L)) \<and>
                (\<forall>L. Push E v L = Returned (y # L)))"
    proof (cases "marshalable E k \<and> marshalable E v")
      case False
      with IH [OF kv, of k] IH [OF kv, of v] show ?thesis by auto
    next
      case True
      with IH [OF kv, of k] IH [OF kv, of v] obtain x y
        where x: "\<forall>L. Push E k L = Returned (x # L)"
          and y: "\<forall>L. Push E v L = Returned (y # L)"
        by auto
      from x have "pushed E k = Some x" by (rule pushed_eq)
      with bad True have "x = LNil \<or> x = LNumber NaN"
        by (simp add: valid_key_def)
      with x y show ?thesis by blast
    qed
    with kv have "\<And>L. \<not> is_Returned (Push_map_loop E val L)"
      by (rule Push_map_loop_throws)
    with False show ?thesis by (simp del: marshalable.simps)
  qed
qed (simp_all add: Push_int_def Push_unsigned_def Push_float_def Push_double_def
       Push_bool_def Push_nullptr_def Push_string_def Push_CLuaArguments_def PushAsTable_def
       Push_CVector2D_def Push_CVector_def Push_CVector4D_def Push_CMatrix_def Push_enum_def
       Push_pointer_def Push_shared_ptr_def Push_unique_ptr_def
       lua_pushnumber_def lua_pushboolean_def lua_pushnil_def lua_pushlstring_def leaf_shapes)


lemma Push_returns_iff: "is_Returned (Push E v L) = marshalable E v"
  using Push_uniform [of E v] by (cases "marshalable E v") auto

lemma Push_returned_value:
  "is_Returned (Push E v L) \<Longrightarrow> Push E v L' = Returned (the (pushed E v) # L')"
  using Push_uniform [of E v] Push_the_pushed [of E v]
  by (simp add: Push_returns_iff)

lemma elements_returned:
  "\<forall>v\<in>set val. is_Returned (Push E v L) \<Longrightarrow>
   \<forall>v\<in>set val. \<forall>L'. Push E v L' = Returned (the (pushed E v) # L')"
  by (blast intro: Push_returned_value)

lemma meets_guard_not_marshalable: "meets_guard v \<Longrightarrow> \<not> marshalable E v"
proof (induction v)
  case (HVariant var)
  then show ?case by (cases var) simp_all
next
  case (HOptional opt)
  then show ?case by (cases opt) simp_all
next
  case (HUnorderedMap val)
  from HUnorderedMap.prems obtain k v where kv: "(k, v) \<in> set val"
    and g: "meets_guard k \<or> meets_guard v" by auto
  from g have "\<not> marshalable E k \<or> \<not> marshalable E v"
  proof
    assume "meets_guard k"
    with HUnorderedMap.IH(1) [of "(k, v)" k] kv show ?thesis by simp
  next
    assume "meets_guard v"
    with HUnorderedMap.IH(2) [of "(k, v)" v] kv show ?thesis by simp
  qed
  with kv show ?case by auto
qed auto

subsection \<open>The table of a counting loop\<close>

lemma index_key_eq [simp]: "(index_key a = index_key b) = (a = b)"
  by (simp add: index_key_def)

lemma store_seq_other:
  "\<forall>j<length ys. key \<noteq> index_key (i + int j) \<Longrightarrow> luaH_get (store_seq t i ys) key = luaH_get t key"
proof (induction ys arbitrary: t i)
  case Nil
  show ?case by simp
next
  case (Cons y ys)
  from Cons.prems have "key \<noteq> index_key i" by force
  moreover have "\<forall>j<length ys. key \<noteq> index_key (i + 1 + int j)"
  proof (intro allI impI)
    fix j assume "j < length ys"
    with Cons.prems have "key \<noteq> index_key (i + int (Suc j))" by force
    then show "key \<noteq> index_key (i + 1 + int j)" by (simp add: add.assoc)
  qed
  ultimately show ?case
    by (simp add: Cons.IH luaH_get_set)
qed

lemma store_seq_nth:
  "j < length ys \<Longrightarrow> luaH_get (store_seq t i ys) (index_key (i + int j)) = ys ! j"
proof (induction ys arbitrary: t i j)
  case Nil
  then show ?case by simp
next
  case (Cons y ys)
  show ?case
  proof (cases j)
    case 0
    have "luaH_get (store_seq (luaH_set t (index_key i) y) (i + 1) ys) (index_key i) =
          luaH_get (luaH_set t (index_key i) y) (index_key i)"
      by (rule store_seq_other) simp
    with 0 show ?thesis by (simp add: luaH_get_set)
  next
    case (Suc j')
    with Cons.prems have "j' < length ys" by simp
    from Cons.IH [OF this, of "luaH_set t (index_key i) y" "i + 1"] Suc
    show ?thesis by (simp add: add.assoc)
  qed
qed

lemma table_keys_iff: "(key \<in> set (table_keys t)) = (luaH_get t key \<noteq> LNil)"
proof -
  have "luaH_get t key \<noteq> LNil \<Longrightarrow> key \<in> fst ` set t"
    by (force simp add: luaH_get_def split: option.splits dest: map_of_SomeD)
  then show ?thesis
    by (auto simp add: table_keys_def)
qed

lemma indexed_length_iff:
  "indexed_length t n = (\<forall>key. (luaH_get t key \<noteq> LNil) = (\<exists>j<n. key = index_key (1 + int j)))"
proof -
  have "set (map (\<lambda>i. index_key (int i)) [1..<Suc n]) = {key. \<exists>j<n. key = index_key (1 + int j)}"
  proof (intro set_eqI iffI)
    fix key assume "key \<in> set (map (\<lambda>i. index_key (int i)) [1..<Suc n])"
    then obtain i where "1 \<le> i" "i < Suc n" "key = index_key (int i)" by auto
    then have "i - 1 < n" "key = index_key (1 + int (i - 1))" by auto
    then show "key \<in> {key. \<exists>j<n. key = index_key (1 + int j)}" by blast
  next
    fix key assume "key \<in> {key. \<exists>j<n. key = index_key (1 + int j)}"
    then obtain j where "j < n" "key = index_key (1 + int j)" by blast
    then have "Suc j \<in> set [1..<Suc n]" "key = index_key (int (Suc j))" by auto
    then show "key \<in> set (map (\<lambda>i. index_key (int i)) [1..<Suc n])"
      by (metis (no_types, lifting) image_eqI set_map)
  qed
  then show ?thesis
    by (auto simp add: indexed_length_def table_keys_iff set_eq_iff)
qed

section \<open>Pushes of sequences and tuples\<close>

text \<open>
  When every element pushes, the array, vector and tuple pushers all leave the same
  table: the foreign values of the elements stored from index 1 on.
\<close>

lemma pushed_Some: "is_Returned (Push E v L) \<Longrightarrow> pushed E v = Some (the (pushed E v))"
proof -
  assume "is_Returned (Push E v L)"
  then have "marshalable E v" by (simp add: Push_returns_iff)
  with Push_uniform [of E v] obtain x where "\<forall>L. Push E v L = Returned (x # L)" by blast
  then have "pushed E v = Some x" by (rule pushed_eq)
  then show ?thesis by simp
qed

lemma sequence_tables:
  assumes "\<forall>v\<in>set val. is_Returned (Push E v L)"
  shows "Push E (HStdVector val) L =
           Returned (LTable (store_seq [] 1 (map (\<lambda>v. the (pushed E v)) val)) # L)"
    and "Push E (HArray val) L =
           Returned (LTable (store_seq [] 1 (map (\<lambda>v. the (pushed E v)) val)) # L)"
    and "Push E (HTuple val) L =
           Returned (LTable (store_seq [] 1 (map (\<lambda>v. the (pushed E v)) val)) # L)"
proof -
  from assms have el: "\<forall>v\<in>set val. \<forall>L'. Push E v L' = Returned (the (pushed E v) # L')"
    by (rule elements_returned)
  from el show "Push E (HStdVector val) L =
           Returned (LTable (store_seq [] 1 (map (\<lambda>v. the (pushed E v)) val)) # L)"
    by (simp add: lua_newtable_def lua_createtable_def Push_vector_loop_returns)
  from el show "Push E (HArray val) L =
           Returned (LTable (store_seq [] 1 (map (\<lambda>v. the (pushed E v)) val)) # L)"
    by (simp add: lua_createtable_def Push_array_loop_returns)
  from el show "Push E (HTuple val) L =
           Returned (LTable (store_seq [] 1 (map (\<lambda>v. the (pushed E v)) val)) # L)"
    by (simp add: lua_createtable_def Push_tuple_loop_returns)
qed

lemma sequence_table_nth:
  assumes "\<forall>v\<in>set val. is_Returned (Push E v L)" and "k < length val"
  shows "Push E (val ! k) L =
     Returned (luaH_get (store_seq [] 1 (map (\<lambda>v. the (pushed E v)) val)) (index_key (int k + 1)) # L)"
proof -
  from assms have "is_Returned (Push E (val ! k) L)" by simp
  then have "Push E (val ! k) L = Returned (the (pushed E (val ! k)) # L)"
    by (rule Push_returned_value)
  moreover from assms(2)
  have "luaH_get (store_seq [] 1 (map (\<lambda>v. the (pushed E v)) val)) (index_key (1 + int k)) =
        the (pushed E (val ! k))"
    by (simp add: store_seq_nth)
  ultimately show ?thesis by (simp add: add.commute)
qed

section \<open>The stack-balance property\<close>

text \<open>
  As the specification states it, the property covers every value of every type with an
  overload. A \<open>CLuaArgument\<close> tagged \<open>LUA_TNONE\<close> is such a value, and the guard of
  its overload throws before anything is pushed: the depth stays what it was. Inside a
  vector the same guard throws after the table and the first key have been pushed: the
  depth has grown by 2.
\<close>

theorem Push_no_value_unbalanced:
  "Push (\<lambda>u::unit. ''x'') (HLuaArgument NoValue) [] = Thrown (std_logic_error ''lua::Push'') [] \<and>
   length (final_stack (Push (\<lambda>u::unit. ''x'') (HLuaArgument NoValue) [])) \<noteq>
     length ([] :: lua_State) + 1 \<and>
   Push (\<lambda>u::unit. ''x'') (HStdVector [HLuaArgument NoValue]) [] =
     Thrown (std_logic_error ''lua::Push'') [LNumber (Finite 1), LTable []] \<and>
   length (final_stack (Push (\<lambda>u::unit. ''x'') (HStdVector [HLuaArgument NoValue]) [])) \<noteq>
     length ([] :: lua_State) + 1"
  by (simp add: Push_CLuaArgument_def lua_newtable_def lua_createtable_def Push_int_def
        lua_pushnumber_def)

text \<open>
  Claim C1, amended. One call \<open>Push(L, v)\<close> that returns has increased the depth of
  the stack by exactly 1, one value on top of the stack it was given, whatever the
  nesting of the type of \<open>v\<close>. A call that hands a \<open>CLuaArgument\<close> tagged \<open>LUA_TNONE\<close>
  to \<open>Push\<close>, directly or at any depth inside \<open>v\<close>, does not return. On a value that hands
  over no such wrapper the call does return, as far as no callee faults: where every
  variant inside holds a value and no map key converts to nil or NaN.
\<close>

theorem Push_stack_balance:
  "(\<forall>L'. Push E v L = Returned L' \<longrightarrow>
      length L' = length L + 1 \<and> (\<exists>x. L' = x # L)) \<and>
   (meets_guard v \<longrightarrow> \<not> is_Returned (Push E v L)) \<and>
   (marshalable E v \<longrightarrow> (\<exists>x. Push E v L = Returned (x # L)))"
proof (intro conjI impI allI)
  assume "marshalable E v"
  with Push_uniform [of E v] show "\<exists>x. Push E v L = Returned (x # L)" by blast
next
  assume "meets_guard v"
  then have "\<not> marshalable E v" by (rule meets_guard_not_marshalable)
  then show "\<not> is_Returned (Push E v L)" by (simp add: Push_returns_iff)
next
  fix L' assume ret: "Push E v L = Returned L'"
  then have "is_Returned (Push E v L)" by simp
  then have "Push E v L = Returned (the (pushed E v) # L)" by (rule Push_returned_value)
  with ret have top: "L' = the (pushed E v) # L" by simp
  then show "length L' = length L + 1" by simp
  from top show "\<exists>x. L' = x # L" by blast
qed

text \<open>
  A vector of optionals of tuples is marshalable and pushes one value; an array holding
  a wrapper tagged \<open>LUA_TNONE\<close> meets the guard, and its push does not return.
\<close>

theorem Push_stack_balance_witness:
  "marshalable (\<lambda>u::unit. ''x'')
     (HStdVector [HOptional (Some (HTuple [HInt 1, HBool True])), HOptional None]) \<and>
   (\<exists>x. Push (\<lambda>u::unit. ''x'')
     (HStdVector [HOptional (Some (HTuple [HInt 1, HBool True])), HOptional None]) [LNil] =
       Returned (x # [LNil])) \<and>
   meets_guard (HArray [HInt 1, HLuaArgument NoValue] :: unit host_value) \<and>
   \<not> is_Returned (Push (\<lambda>u::unit. ''x'') (HArray [HInt 1, HLuaArgument NoValue]) [LNil])"
  using Push_stack_balance [of "\<lambda>u::unit. ''x''"
          "HStdVector [HOptional (Some (HTuple [HInt 1, HBool True])), HOptional None]" "[LNil]"]
        Push_stack_balance [of "\<lambda>u::unit. ''x''" "HArray [HInt 1, HLuaArgument NoValue]" "[LNil]"]
  by simp

section \<open>The fatal guard\<close>

text \<open>
  Claim C2. \<open>Push\<close> on a \<open>CLuaArgument\<close> whose type is \<open>LUA_TNONE\<close> leaves by
  \<open>std::logic_error("lua::Push")\<close>; it does not return, and the stack at the throw is
  the stack of the call: no slot has been pushed.
\<close>

theorem Push_no_value_throws:
  "GetType arg = LUA_TNONE \<Longrightarrow>
   Push E (HLuaArgument arg) L = Thrown (std_logic_error ''lua::Push'') L"
  by (simp add: Push_CLuaArgument_def)

theorem Push_no_value_throws_witness:
  "GetType NoValue = LUA_TNONE \<and>
   Push (\<lambda>u::unit. ''x'') (HLuaArgument NoValue) [LBoolean True] =
     Thrown (std_logic_error ''lua::Push'') [LBoolean True]"
proof -
  have h: "GetType NoValue = LUA_TNONE" by simp
  from h Push_no_value_throws [OF h, of "\<lambda>u::unit. ''x''" "[LBoolean True]"]
  show ?thesis by simp
qed

section \<open>Index translation\<close>




section \<open>Optionals\<close>

text \<open>
  Claim C4. Pushing an empty \<open>std::optional\<close> pushes nil and nothing else; pushing one
  that holds \<open>held\<close> is pushing \<open>held\<close>.
\<close>

theorem Push_optional:
  "Push E (HOptional None) L = Returned (LNil # L) \<and>
   Push E (HOptional (Some held)) L = Push E held L"
  by (simp add: Push_nullptr_def lua_pushnil_def)

section \<open>Tuples\<close>

text \<open>
  A component that converts to nil is stored as nil, which leaves its index empty: the
  tuple \<open>(5, nullopt)\<close> of type \<open>std::tuple<int, std::optional<int>>\<close> becomes a table
  with the single key \<open>1\<close>, an indexed container of length 1 and not 2.
\<close>

theorem Push_tuple_nil_component:
  "Push (\<lambda>u::unit. ''x'') (HTuple [HInt 5, HOptional None]) [] =
     Returned [LTable [(LNumber (Finite 1), LNumber (Finite 5))]] \<and>
   \<not> indexed_length [(LNumber (Finite 1), LNumber (Finite 5))] 2"
  by (simp add: lua_createtable_def Push_int_def lua_pushnumber_def Push_nullptr_def
      lua_pushnil_def lua_rawseti_def index2adr_def luaH_set_def luaH_get_def index_key_def
      indexed_length_def table_keys_def upt_rec)

text \<open>
  Claim C5, amended. Pushing a tuple whose \<open>n\<close> components all push leaves one table
  on top of the stack. At index \<open>i\<close> it holds the foreign value that pushing the
  \<open>i\<close>-th component itself leaves, for \<open>i\<close> from 1 to \<open>n\<close> in declaration order, and it
  holds nothing at any other key. When no component converts to nil, the table is an
  indexed container of length exactly \<open>n\<close>.
\<close>

theorem Push_tuple_table:
  assumes "\<forall>v\<in>set tuple. is_Returned (Push E v L)"
  shows "\<exists>t. Push E (HTuple tuple) L = Returned (LTable t # L) \<and>
     (\<forall>k<length tuple. Push E (tuple ! k) L = Returned (luaH_get t (index_key (int k + 1)) # L)) \<and>
     (\<forall>key. (\<forall>k<length tuple. key \<noteq> index_key (int k + 1)) \<longrightarrow> luaH_get t key = LNil) \<and>
     ((\<forall>v\<in>set tuple. pushed E v \<noteq> Some LNil) \<longrightarrow> indexed_length t (length tuple))"
proof -
  let ?f = "\<lambda>v. the (pushed E v)"
  let ?t = "store_seq [] 1 (map ?f tuple)"
  have other: "luaH_get ?t key = LNil" if "\<forall>k<length tuple. key \<noteq> index_key (int k + 1)" for key
  proof -
    from that have "\<forall>j<length (map ?f tuple). key \<noteq> index_key (1 + int j)"
      by (simp add: add.commute)
    then have "luaH_get ?t key = luaH_get [] key" by (rule store_seq_other)
    then show ?thesis by (simp add: luaH_get_def)
  qed
  have len: "indexed_length ?t (length tuple)" if nonnil: "\<forall>v\<in>set tuple. pushed E v \<noteq> Some LNil"
    unfolding indexed_length_iff
  proof (intro allI iffI)
    fix key assume "luaH_get ?t key \<noteq> LNil"
    with other [of key] obtain k where "k < length tuple" "key = index_key (int k + 1)"
      by blast
    then show "\<exists>j<length tuple. key = index_key (1 + int j)"
      by (auto simp add: add.commute)
  next
    fix key assume "\<exists>j<length tuple. key = index_key (1 + int j)"
    then obtain j where j: "j < length tuple" "key = index_key (1 + int j)" by blast
    then have "luaH_get ?t key = ?f (tuple ! j)" by (simp add: store_seq_nth)
    moreover from j assms have "is_Returned (Push E (tuple ! j) L)" by simp
    then have "pushed E (tuple ! j) = Some (?f (tuple ! j))" by (rule pushed_Some)
    moreover from j nonnil have "pushed E (tuple ! j) \<noteq> Some LNil" by simp
    ultimately show "luaH_get ?t key \<noteq> LNil" by auto
  qed
  from sequence_tables(3) [OF assms] sequence_table_nth [OF assms] other len
  show ?thesis by blast
qed

text \<open>
  The fourth scenario of the specification: \<open>(1.5, 7, true)\<close> becomes a table of
  length 3.
\<close>

theorem Push_tuple_table_witness:
  "is_Returned (Push (\<lambda>u::unit. ''x'') (HFloat (Finite 1.5)) [LNil]) \<and>
   is_Returned (Push (\<lambda>u::unit. ''x'') (HInt 7) [LNil]) \<and>
   is_Returned (Push (\<lambda>u::unit. ''x'') (HBool True) [LNil]) \<and>
   (\<exists>t. Push (\<lambda>u::unit. ''x'') (HTuple [HFloat (Finite 1.5), HInt 7, HBool True]) [LNil] =
          Returned (LTable t # [LNil]) \<and>
        luaH_get t (index_key 1) = LNumber (Finite 1.5) \<and>
        luaH_get t (index_key 2) = LNumber (Finite 7) \<and>
        luaH_get t (index_key 3) = LBoolean True \<and>
        indexed_length t 3)"
proof -
  let ?E = "\<lambda>u::unit. ''x''"
  let ?val = "[HFloat (Finite 1.5), HInt 7, HBool True] :: unit host_value list"
  have h: "\<forall>v\<in>set ?val. is_Returned (Push ?E v [LNil])" by simp
  have nonnil: "\<forall>v\<in>set ?val. pushed ?E v \<noteq> Some LNil"
    by (simp add: pushed_def Push_float_def Push_int_def Push_bool_def lua_pushnumber_def
          lua_pushboolean_def)
  from Push_tuple_table [OF h] obtain t where
    t: "Push ?E (HTuple ?val) [LNil] = Returned (LTable t # [LNil])"
    and nth: "\<forall>k<length ?val.
       Push ?E (?val ! k) [LNil] = Returned (luaH_get t (index_key (int k + 1)) # [LNil])"
    and len: "(\<forall>v\<in>set ?val. pushed ?E v \<noteq> Some LNil) \<longrightarrow> indexed_length t (length ?val)"
    by blast
  from nth [rule_format, of 0] nth [rule_format, of 1] nth [rule_format, of 2]
  have "luaH_get t (index_key 1) = LNumber (Finite 1.5)"
       "luaH_get t (index_key 2) = LNumber (Finite 7)"
       "luaH_get t (index_key 3) = LBoolean True"
    by (auto simp add: Push_float_def Push_int_def Push_bool_def lua_pushnumber_def
          lua_pushboolean_def)
  moreover from len nonnil have "indexed_length t 3" by (simp add: numeral_3_eq_3)
  moreover from h have "is_Returned (Push ?E (HFloat (Finite 1.5)) [LNil])"
    "is_Returned (Push ?E (HInt 7) [LNil])" "is_Returned (Push ?E (HBool True) [LNil])"
    by simp_all
  ultimately show ?thesis using t by blast
qed

section \<open>Variants\<close>

text \<open>
  As the specification states it, the property covers every variant value. A variant
  that is valueless by exception is one: \<open>std::visit\<close> throws
  \<open>std::bad_variant_access\<close>, no pusher runs and nothing is pushed.
\<close>

theorem Push_variant_valueless:
  "valueless_by_exception (Valueless :: unit host_value std_variant) \<and>
   Push (\<lambda>u::unit. ''x'') (HVariant Valueless) [LNil] = Thrown std_bad_variant_access [LNil] \<and>
   \<not> is_Returned (Push (\<lambda>u::unit. ''x'') (HVariant Valueless) [LNil])"
  by simp

text \<open>
  Claim C6, amended. Pushing a \<open>std::variant\<close> that holds a value is pushing the
  alternative it holds, whatever its index: the outcome is that of this one pusher, and
  when it returns one value has been pushed, not none and not two.
\<close>

theorem Push_variant:
  "\<not> valueless_by_exception var \<Longrightarrow>
   Push E (HVariant var) L = Push E (std_get var) L \<and>
   (\<forall>L'. Push E (HVariant var) L = Returned L' \<longrightarrow> (\<exists>x. L' = x # L))"
proof -
  assume "\<not> valueless_by_exception var"
  then obtain i held where var: "var = Holding i held" by (cases var) simp_all
  have "\<exists>x. L' = x # L" if "Push E held L = Returned L'" for L'
  proof -
    from that have "is_Returned (Push E held L)" by simp
    then have "Push E held L = Returned (the (pushed E held) # L)"
      by (rule Push_returned_value)
    with that have "L' = the (pushed E held) # L" by simp
    then show ?thesis by blast
  qed
  with var show ?thesis by simp
qed

theorem Push_variant_witness:
  "\<not> valueless_by_exception (Holding 1 (HString ''abc'' :: unit host_value)) \<and>
   \<not> valueless_by_exception (Holding 0 (HBool False :: unit host_value)) \<and>
   Push (\<lambda>u::unit. ''x'') (HVariant (Holding 1 (HString ''abc''))) [LNil] =
     Returned [LString ''abc'', LNil] \<and>
   Push (\<lambda>u::unit. ''x'') (HVariant (Holding 0 (HBool False))) [LNil] =
     Returned [LBoolean False, LNil]"
proof -
  have h1: "\<not> valueless_by_exception (Holding 1 (HString ''abc'' :: unit host_value))"
    and h2: "\<not> valueless_by_exception (Holding 0 (HBool False :: unit host_value))"
    by simp_all
  from Push_variant [OF h1, of "\<lambda>u::unit. ''x''" "[LNil]"]
       Push_variant [OF h2, of "\<lambda>u::unit. ''x''" "[LNil]"]
  show ?thesis
    by (simp add: Push_string_def lua_pushlstring_def Push_bool_def lua_pushboolean_def)
qed

section \<open>The empty vector\<close>

text \<open>
  Claim C7. Pushing an empty \<open>std::vector\<close> pushes one table with no entry, an indexed
  container of length 0, and not nil.
\<close>

theorem Push_empty_vector:
  "Push E (HStdVector []) L = Returned (LTable [] # L) \<and>
   Push E (HStdVector []) L \<noteq> Returned (LNil # L) \<and>
   indexed_length [] 0 \<and> (\<forall>key. luaH_get [] key = LNil)"
  by (simp add: lua_newtable_def lua_createtable_def indexed_length_def table_keys_def
        luaH_get_def)

section \<open>Null references\<close>

text \<open>
  Claim C8. A null raw pointer, an empty \<open>std::shared_ptr\<close> and an empty
  \<open>std::unique_ptr\<close> push nil, not a handle.
\<close>

theorem Push_null_reference:
  "Push E (HPointer 0) L = Returned (LNil # L) \<and>
   Push E (HSharedPtr 0) L = Returned (LNil # L) \<and>
   Push E (HUniquePtr 0) L = Returned (LNil # L)"
  by (simp add: Push_pointer_def Push_shared_ptr_def Push_unique_ptr_def lua_pushelement_def
        lua_pushnil_def)

section \<open>Array and vector\<close>

text \<open>
  Claim C10. The array pusher and the vector pusher return on the same element lists,
  and for the same elements they leave tables that agree at every key, although the
  first stores with \<open>lua_rawseti\<close> into a table created with a size hint and the second
  pushes each key and stores with \<open>lua_settable\<close>: both hold at index \<open>k + 1\<close> the
  foreign value of the element \<open>k\<close>, and nothing else.
\<close>

theorem Push_array_vector_equivalent:
  "is_Returned (Push E (HArray val) L) = is_Returned (Push E (HStdVector val) L) \<and>
   ((\<forall>v\<in>set val. is_Returned (Push E v L)) \<longrightarrow>
      (\<exists>t t'. Push E (HArray val) L = Returned (LTable t # L) \<and>
              Push E (HStdVector val) L = Returned (LTable t' # L) \<and>
              (\<forall>key. luaH_get t key = luaH_get t' key) \<and>
              (\<forall>k<length val.
                 Push E (val ! k) L = Returned (luaH_get t (index_key (int k + 1)) # L))))"
proof (intro conjI impI)
  show "is_Returned (Push E (HArray val) L) = is_Returned (Push E (HStdVector val) L)"
    by (simp only: Push_returns_iff marshalable.simps)
next
  assume el: "\<forall>v\<in>set val. is_Returned (Push E v L)"
  from sequence_tables(1,2) [OF el] sequence_table_nth [OF el]
  show "\<exists>t t'. Push E (HArray val) L = Returned (LTable t # L) \<and>
              Push E (HStdVector val) L = Returned (LTable t' # L) \<and>
              (\<forall>key. luaH_get t key = luaH_get t' key) \<and>
              (\<forall>k<length val.
                 Push E (val ! k) L = Returned (luaH_get t (index_key (int k + 1)) # L))"
    by blast
qed

theorem Push_array_vector_equivalent_witness:
  "is_Returned (Push (\<lambda>u::unit. ''x'') (HInt 10) [LNil]) \<and>
   is_Returned (Push (\<lambda>u::unit. ''x'') (HOptional None) [LNil]) \<and>
   is_Returned (Push (\<lambda>u::unit. ''x'') (HArray [HInt 10, HOptional None]) [LNil]) \<and>
   is_Returned (Push (\<lambda>u::unit. ''x'') (HStdVector [HInt 10, HOptional None]) [LNil]) \<and>
   (\<exists>t t'. Push (\<lambda>u::unit. ''x'') (HArray [HInt 10, HOptional None]) [LNil] = Returned (LTable t # [LNil]) \<and>
           Push (\<lambda>u::unit. ''x'') (HStdVector [HInt 10, HOptional None]) [LNil] = Returned (LTable t' # [LNil]) \<and>
           (\<forall>key. luaH_get t key = luaH_get t' key))"
proof -
  let ?E = "\<lambda>u::unit. ''x''"
  let ?val = "[HInt 10, HOptional None] :: unit host_value list"
  have h: "\<forall>v\<in>set ?val. is_Returned (Push ?E v [LNil])" by simp
  from Push_array_vector_equivalent [of ?E ?val "[LNil]"] h
  have "\<exists>t t'. Push ?E (HArray ?val) [LNil] = Returned (LTable t # [LNil]) \<and>
              Push ?E (HStdVector ?val) [LNil] = Returned (LTable t' # [LNil]) \<and>
              (\<forall>key. luaH_get t key = luaH_get t' key)"
    by blast
  moreover from this have "is_Returned (Push ?E (HArray ?val) [LNil])"
    "is_Returned (Push ?E (HStdVector ?val) [LNil])" by auto
  moreover from h have "is_Returned (Push ?E (HInt 10) [LNil])"
    "is_Returned (Push ?E (HOptional None) [LNil])" by simp_all
  ultimately show ?thesis by blast
qed

end
